theory Spec2Isabelle
  imports Main "HOL-Library.Word"
begin

unbundle bit_operations_syntax

section \<open>Branchless arithmetic kernel (branchless.hh)\<close>

text \<open>
  Fixed-width C++ integers are words: \<open>std::int8_t\<close> and \<open>std::uint8_t\<close> are
  \<open>8 word\<close>, and so on up to \<open>__int128\<close> as \<open>128 word\<close>; \<open>int\<close> is 32 bits wide.
  A signed type reads its word with \<open>sint\<close> and compares with \<open><s\<close>, an unsigned one
  reads it with \<open>unat\<close> and compares with \<open><\<close>. Signed arithmetic is two's complement
  (what the subtract instruction of the target computes); where the mathematical result
  leaves the range of the type this is said in the theorem concerned.
\<close>

type_synonym int8 = "8 word"
type_synonym int16 = "16 word"
type_synonym int32 = "32 word"
type_synonym int64 = "64 word"
type_synonym int128 = "128 word"

subsection \<open>The sign-extension unions\<close>

text \<open>
  Each union overlays a double-width \<open>dword\<close> with the pair \<open>loword\<close>, \<open>hiword\<close>. The
  constructor stores the value converted to the double width (sign extension); on the
  little-endian layout the library is written for, \<open>hiword\<close> is the upper half of
  \<open>dword\<close>, and \<open>mask()\<close> returns it.
\<close>

record sign_extend_64 =
  dword64 :: int128

definition sign_extend_64 :: "int64 \<Rightarrow> sign_extend_64" where
  "sign_extend_64 value = \<lparr> dword64 = scast value \<rparr>"

definition hiword64 :: "sign_extend_64 \<Rightarrow> int64" where
  "hiword64 u = ucast (drop_bit 64 (dword64 u))"

definition mask64 :: "sign_extend_64 \<Rightarrow> int64" where
  "mask64 u = hiword64 u"

record sign_extend_32 =
  dword32 :: int64

definition sign_extend_32 :: "int32 \<Rightarrow> sign_extend_32" where
  "sign_extend_32 value = \<lparr> dword32 = scast value \<rparr>"

definition hiword32 :: "sign_extend_32 \<Rightarrow> int32" where
  "hiword32 u = ucast (drop_bit 32 (dword32 u))"

definition mask32 :: "sign_extend_32 \<Rightarrow> int32" where
  "mask32 u = hiword32 u"

record sign_extend_16 =
  dword16 :: int32

definition sign_extend_16 :: "int16 \<Rightarrow> sign_extend_16" where
  "sign_extend_16 value = \<lparr> dword16 = scast value \<rparr>"

definition hiword16 :: "sign_extend_16 \<Rightarrow> int16" where
  "hiword16 u = ucast (drop_bit 16 (dword16 u))"

definition mask16 :: "sign_extend_16 \<Rightarrow> int16" where
  "mask16 u = hiword16 u"

record sign_extend_8 =
  dword8 :: int16

definition sign_extend_8 :: "int8 \<Rightarrow> sign_extend_8" where
  "sign_extend_8 value = \<lparr> dword8 = scast value \<rparr>"

definition hiword8 :: "sign_extend_8 \<Rightarrow> int8" where
  "hiword8 u = ucast (drop_bit 8 (dword8 u))"

definition mask8 :: "sign_extend_8 \<Rightarrow> int8" where
  "mask8 u = hiword8 u"

subsection \<open>abs\<close>

text \<open>
  \<open>abs\<close> is a template with return type \<open>auto\<close>: the type of \<open>(value ^ mask) - mask\<close>.
  For \<open>std::int8_t\<close> and \<open>std::int16_t\<close> both operands are promoted to \<open>int\<close>, so the
  expression is evaluated and returned as an \<open>int\<close>; for \<open>std::int32_t\<close> and
  \<open>std::int64_t\<close> it is evaluated at the width of the argument. One definition per
  instantiation that \<open>_::sign_extend\<close> dispatches to.
\<close>

definition abs_int8 :: "int8 \<Rightarrow> int32" where
  "abs_int8 value =
     (let mask = mask8 (sign_extend_8 value)
      in (scast value XOR scast mask) - scast mask)"

definition abs_int16 :: "int16 \<Rightarrow> int32" where
  "abs_int16 value =
     (let mask = mask16 (sign_extend_16 value)
      in (scast value XOR scast mask) - scast mask)"

definition abs_int32 :: "int32 \<Rightarrow> int32" where
  "abs_int32 value =
     (let mask = mask32 (sign_extend_32 value)
      in (value XOR mask) - mask)"

definition abs_int64 :: "int64 \<Rightarrow> int64" where
  "abs_int64 value =
     (let mask = mask64 (sign_extend_64 value)
      in (value XOR mask) - mask)"

subsection \<open>min and max\<close>

text \<open>
  \<open>x < y\<close> is a \<open>bool\<close>, promoted to the integer 0 or 1 and negated: all-zeros or
  all-ones at the width of \<open>T\<close>. The comparison is the signed one for a signed \<open>T\<close> and
  the unsigned one for an unsigned \<open>T\<close>; the rest of the expression is the same.
\<close>

definition min_signed :: "'a::len word \<Rightarrow> 'a word \<Rightarrow> 'a word" where
  "min_signed x y = y XOR ((x XOR y) AND - of_bool (x <s y))"

definition min_unsigned :: "'a::len word \<Rightarrow> 'a word \<Rightarrow> 'a word" where
  "min_unsigned x y = y XOR ((x XOR y) AND - of_bool (x < y))"

definition max_signed :: "'a::len word \<Rightarrow> 'a word \<Rightarrow> 'a word" where
  "max_signed x y = x XOR ((x XOR y) AND - of_bool (x <s y))"

definition max_unsigned :: "'a::len word \<Rightarrow> 'a word \<Rightarrow> 'a word" where
  "max_unsigned x y = x XOR ((x XOR y) AND - of_bool (x < y))"

subsection \<open>power\_of\_2\<close>

definition isa :: "'a::len word \<Rightarrow> bool" where
  "isa value \<longleftrightarrow> ((value - 1) AND value) = 0"

definition roundup :: "'a::len word \<Rightarrow> 'a word" where
  "roundup value =
     (let v0 = value - 1;
          v1 = v0 OR drop_bit 1 v0;
          v2 = v1 OR drop_bit 2 v1;
          v3 = v2 OR drop_bit 4 v2;
          v4 = v3 OR drop_bit 8 v3;
          v5 = v4 OR drop_bit 16 v4
      in v5 + 1)"

section \<open>Exclusive-ownership wrappers (the two unnamed headers)\<close>

subsection \<open>The operating system\<close>

text \<open>
  The system calls are outside the library. A \<open>world\<close> records the calls made so far
  and holds the answers of the operating system: the answer to the \<open>n\<close>-th call is
  \<open>replies n\<close>, whatever the library asks. An answer carries the return value of the
  call, the value of \<open>errno\<close> after it, and what \<open>fstat\<close> and \<open>mmap\<close> hand back.
  The code reads the raw values (\<open>!result\<close>, \<open>result == -1\<close>,
  \<open>address == MAP_FAILED\<close>), and so does the model.
\<close>

type_synonym addr = "64 word"
type_synonym size_t = "64 word"

definition MAP_FAILED :: addr where
  "MAP_FAILED = - 1"

definition nullptr :: addr where
  "nullptr = 0"

definition EINTR :: int where
  "EINTR = 4"

definition EBADF :: int where
  "EBADF = 9"

definition MAP_ANONYMOUS :: int where
  "MAP_ANONYMOUS = 32"

datatype syscall =
    Close int
  | Fstat int
  | Mmap addr size_t int int int size_t
  | Munmap addr size_t

record reply =
  ret :: int
  errno :: int
  st_size :: size_t
  ptr :: addr

record world =
  replies :: "nat \<Rightarrow> reply"
  trace :: "syscall list"

definition sys :: "syscall \<Rightarrow> world \<Rightarrow> reply \<times> world" where
  "sys c w = (replies w (length (trace w)), w\<lparr>trace := trace w @ [c]\<rparr>)"

text \<open>
  A \<open>throw\<close> is \<open>Inl (system_error code what)\<close>. An exception that leaves a destructor
  while another exception unwinds the stack ends the program: \<open>terminate\<close>. A call
  that never returns is \<open>None\<close>.
\<close>

datatype error = system_error int string | terminate

subsection \<open>class fd, close-is-idempotent (the header that also defines mmap)\<close>

record fd =
  handle :: int

definition invalid :: int where
  "invalid = - 1"

text \<open>The \<open>while (true)\<close> loop of \<open>fd::close\<close>; the two headers differ in its label only.\<close>

partial_function (option) close_loop :: "string \<Rightarrow> int \<Rightarrow> world \<Rightarrow> ((error + unit) \<times> world) option" where
  "close_loop what h w =
     (let r = fst (sys (Close h) w); w' = snd (sys (Close h) w)
      in if ret r = 0 then Some (Inr (), w')
         else if errno r = EINTR then close_loop what h w'
         else Some (Inl (system_error (errno r) what), w'))"

declare close_loop.simps [code]

definition fd_close :: "fd \<Rightarrow> world \<Rightarrow> ((error + unit) \<times> fd \<times> world) option" where
  "fd_close this w =
     (if handle this = invalid then Some (Inr (), this, w)
      else case close_loop ''close'' (handle this) w of
             None \<Rightarrow> None
           | Some (Inl e, w') \<Rightarrow> Some (Inl e, this, w')
           | Some (Inr u, w') \<Rightarrow> Some (Inr (), this\<lparr>handle := invalid\<rparr>, w'))"

text \<open>
  A member function takes the object and the world and returns what it returns or throws,
  the object afterwards and the world afterwards; a move also returns the object moved
  from.
\<close>

definition fd_ctor :: "int \<Rightarrow> fd" where
  "fd_ctor raw = \<lparr>handle = raw\<rparr>"

definition fd_move :: "fd \<Rightarrow> fd \<times> fd" where
  "fd_move other = (\<lparr>handle = handle other\<rparr>, other\<lparr>handle := invalid\<rparr>)"

definition fd_assign_move :: "fd \<Rightarrow> fd \<Rightarrow> world \<Rightarrow> ((error + unit) \<times> fd \<times> fd \<times> world) option" where
  "fd_assign_move this other w =
     (case fd_close this w of
        None \<Rightarrow> None
      | Some (Inl e, this', w') \<Rightarrow> Some (Inl e, this', other, w')
      | Some (Inr u, this', w') \<Rightarrow>
          Some (Inr (), this'\<lparr>handle := handle other\<rparr>, other\<lparr>handle := invalid\<rparr>, w'))"

definition fd_assign_raw :: "fd \<Rightarrow> int \<Rightarrow> world \<Rightarrow> ((error + unit) \<times> fd \<times> world) option" where
  "fd_assign_raw this raw w =
     (case fd_close this w of
        None \<Rightarrow> None
      | Some (Inl e, this', w') \<Rightarrow> Some (Inl e, this', w')
      | Some (Inr u, this', w') \<Rightarrow> Some (Inr (), this'\<lparr>handle := raw\<rparr>, w'))"

definition fd_destroy :: "fd \<Rightarrow> world \<Rightarrow> ((error + unit) \<times> fd \<times> world) option" where
  "fd_destroy this w = fd_close this w"

definition fd_release :: "fd \<Rightarrow> world \<Rightarrow> ((error + int) \<times> fd \<times> world) option" where
  "fd_release this w = (let tmp = handle this in Some (Inr tmp, this\<lparr>handle := invalid\<rparr>, w))"

definition fd_reset :: "fd \<Rightarrow> int \<Rightarrow> world \<Rightarrow> ((error + unit) \<times> fd \<times> world) option" where
  "fd_reset this raw w =
     (case fd_close this w of
        None \<Rightarrow> None
      | Some (Inl e, this', w') \<Rightarrow> Some (Inl e, this', w')
      | Some (Inr u, this', w') \<Rightarrow> Some (Inr (), this'\<lparr>handle := raw\<rparr>, w'))"

definition fd_get :: "fd \<Rightarrow> int" where
  "fd_get this = handle this"

definition fd_int :: "fd \<Rightarrow> int" where
  "fd_int this = handle this"

definition fd_bool :: "fd \<Rightarrow> bool" where
  "fd_bool this \<longleftrightarrow> handle this \<noteq> invalid"

subsection \<open>class fd, close-is-strict (the header that defines fd alone)\<close>

text \<open>
  The same class with another \<open>close\<close>, which throws \<open>EBADF\<close> without a label on the
  sentinel, and with \<open>if (handle != invalid)\<close> in front of every call of it.
\<close>

definition fd_close_strict :: "fd \<Rightarrow> world \<Rightarrow> ((error + unit) \<times> fd \<times> world) option" where
  "fd_close_strict this w =
     (if handle this = invalid then Some (Inl (system_error EBADF []), this, w)
      else case close_loop [] (handle this) w of
             None \<Rightarrow> None
           | Some (Inl e, w') \<Rightarrow> Some (Inl e, this, w')
           | Some (Inr u, w') \<Rightarrow> Some (Inr (), this\<lparr>handle := invalid\<rparr>, w'))"

definition fd_assign_move_strict :: "fd \<Rightarrow> fd \<Rightarrow> world \<Rightarrow> ((error + unit) \<times> fd \<times> fd \<times> world) option" where
  "fd_assign_move_strict this other w =
     (case (if handle this \<noteq> invalid then fd_close_strict this w else Some (Inr (), this, w)) of
        None \<Rightarrow> None
      | Some (Inl e, this', w') \<Rightarrow> Some (Inl e, this', other, w')
      | Some (Inr u, this', w') \<Rightarrow>
          Some (Inr (), this'\<lparr>handle := handle other\<rparr>, other\<lparr>handle := invalid\<rparr>, w'))"

definition fd_assign_raw_strict :: "fd \<Rightarrow> int \<Rightarrow> world \<Rightarrow> ((error + unit) \<times> fd \<times> world) option" where
  "fd_assign_raw_strict this raw w =
     (case (if handle this \<noteq> invalid then fd_close_strict this w else Some (Inr (), this, w)) of
        None \<Rightarrow> None
      | Some (Inl e, this', w') \<Rightarrow> Some (Inl e, this', w')
      | Some (Inr u, this', w') \<Rightarrow> Some (Inr (), this'\<lparr>handle := raw\<rparr>, w'))"

definition fd_destroy_strict :: "fd \<Rightarrow> world \<Rightarrow> ((error + unit) \<times> fd \<times> world) option" where
  "fd_destroy_strict this w =
     (if handle this \<noteq> invalid then fd_close_strict this w else Some (Inr (), this, w))"

definition fd_release_strict :: "fd \<Rightarrow> world \<Rightarrow> ((error + int) \<times> fd \<times> world) option" where
  "fd_release_strict this w =
     (let tmp = handle this in Some (Inr tmp, this\<lparr>handle := invalid\<rparr>, w))"

definition fd_reset_strict :: "fd \<Rightarrow> int \<Rightarrow> world \<Rightarrow> ((error + unit) \<times> fd \<times> world) option" where
  "fd_reset_strict this raw w =
     (case (if handle this \<noteq> invalid then fd_close_strict this w else Some (Inr (), this, w)) of
        None \<Rightarrow> None
      | Some (Inl e, this', w') \<Rightarrow> Some (Inl e, this', w')
      | Some (Inr u, this', w') \<Rightarrow> Some (Inr (), this'\<lparr>handle := raw\<rparr>, w'))"

subsection \<open>class mmap\<close>

record mmap =
  address :: addr
  length' :: size_t

definition mmap_close :: "mmap \<Rightarrow> world \<Rightarrow> ((error + unit) \<times> mmap \<times> world) option" where
  "mmap_close this w =
     (if address this = MAP_FAILED then Some (Inr (), this, w)
      else let result = fst (sys (Munmap (address this) (length' this)) w);
               w' = snd (sys (Munmap (address this) (length' this)) w)
           in if ret result = - 1 then Some (Inl (system_error (errno result) ''munmap''), this, w')
              else Some (Inr (), this\<lparr>address := MAP_FAILED, length' := 0\<rparr>, w'))"

text \<open>
  Leaving the constructor by a \<open>throw\<close> destroys the local \<open>handle\<close> while the exception
  unwinds the stack; an exception out of \<open>~fd()\<close> at that moment ends the program.
\<close>

definition unwind_fd :: "error \<Rightarrow> fd \<Rightarrow> world \<Rightarrow> (error \<times> world) option" where
  "unwind_fd e local w =
     (case fd_destroy local w of
        None \<Rightarrow> None
      | Some (Inl e', local', w') \<Rightarrow> Some (terminate, w')
      | Some (Inr u, local', w') \<Rightarrow> Some (e, w'))"

text \<open>
  \<open>mmap(raii::fd && fd, protection, flags, offset)\<close>. The result holds the constructed
  region or the exception, then the caller's \<open>fd\<close> after the call.
\<close>

definition mmap_from_fd :: "fd \<Rightarrow> int \<Rightarrow> int \<Rightarrow> size_t \<Rightarrow> world \<Rightarrow> ((error + mmap) \<times> fd \<times> world) option" where
  "mmap_from_fd fd protection flags offset w =
     (let local = fst (fd_move fd); fd' = snd (fd_move fd);
          result = fst (sys (Fstat (fd_int local)) w);
          w1 = snd (sys (Fstat (fd_int local)) w)
      in if ret result = - 1
         then (case unwind_fd (system_error (errno result) ''fstat'') local w1 of
                 None \<Rightarrow> None
               | Some (e, w') \<Rightarrow> Some (Inl e, fd', w'))
         else
           let mapped = fst (sys (Mmap nullptr (st_size result) protection flags (fd_int local) offset) w1);
               w2 = snd (sys (Mmap nullptr (st_size result) protection flags (fd_int local) offset) w1)
           in if ptr mapped = MAP_FAILED
              then (case unwind_fd (system_error (errno mapped) ''mmap'') local w2 of
                      None \<Rightarrow> None
                    | Some (e, w') \<Rightarrow> Some (Inl e, fd', w'))
              else (case fd_destroy local w2 of
                      None \<Rightarrow> None
                    | Some (Inl e, local', w') \<Rightarrow> Some (Inl e, fd', w')
                    | Some (Inr u, local', w') \<Rightarrow>
                        Some (Inr \<lparr>address = ptr mapped, length' = st_size result\<rparr>, fd', w')))"

text \<open>\<open>mmap(length, protection, flags, offset)\<close>, the anonymous mapping.\<close>

definition mmap_anonymous :: "size_t \<Rightarrow> int \<Rightarrow> int \<Rightarrow> size_t \<Rightarrow> world \<Rightarrow> ((error + mmap) \<times> world) option" where
  "mmap_anonymous len protection flags offset w =
     (let mapped = fst (sys (Mmap nullptr len protection (flags OR MAP_ANONYMOUS) (- 1) offset) w);
          w' = snd (sys (Mmap nullptr len protection (flags OR MAP_ANONYMOUS) (- 1) offset) w)
      in if ptr mapped = MAP_FAILED then Some (Inl (system_error (errno mapped) ''mmap''), w')
         else Some (Inr \<lparr>address = ptr mapped, length' = len\<rparr>, w'))"

definition mmap_move :: "mmap \<Rightarrow> mmap \<times> mmap" where
  "mmap_move other =
     (\<lparr>address = address other, length' = length' other\<rparr>,
      other\<lparr>address := MAP_FAILED, length' := 0\<rparr>)"

definition mmap_assign_move :: "mmap \<Rightarrow> mmap \<Rightarrow> world \<Rightarrow> ((error + unit) \<times> mmap \<times> mmap \<times> world) option" where
  "mmap_assign_move this other w =
     (case mmap_close this w of
        None \<Rightarrow> None
      | Some (Inl e, this', w') \<Rightarrow> Some (Inl e, this', other, w')
      | Some (Inr u, this', w') \<Rightarrow>
          Some (Inr (), this'\<lparr>address := address other, length' := length' other\<rparr>,
                other\<lparr>address := MAP_FAILED, length' := 0\<rparr>, w'))"

definition mmap_destroy :: "mmap \<Rightarrow> world \<Rightarrow> ((error + unit) \<times> mmap \<times> world) option" where
  "mmap_destroy this w = mmap_close this w"

definition mmap_release :: "mmap \<Rightarrow> world \<Rightarrow> ((error + addr \<times> size_t) \<times> mmap \<times> world) option" where
  "mmap_release this w =
     (let value = (address this, length' this)
      in Some (Inr value, this\<lparr>address := MAP_FAILED, length' := 0\<rparr>, w))"

definition mmap_reset :: "mmap \<Rightarrow> addr \<Rightarrow> size_t \<Rightarrow> world \<Rightarrow> ((error + unit) \<times> mmap \<times> world) option" where
  "mmap_reset this addr len w =
     (case mmap_close this w of
        None \<Rightarrow> None
      | Some (Inl e, this', w') \<Rightarrow> Some (Inl e, this', w')
      | Some (Inr u, this', w') \<Rightarrow> Some (Inr (), this'\<lparr>address := addr, length' := len\<rparr>, w'))"

text \<open>\<open>reset()\<close> with its default arguments, \<open>address = nullptr\<close> and \<open>length = 0\<close>.\<close>

definition mmap_reset_default :: "mmap \<Rightarrow> world \<Rightarrow> ((error + unit) \<times> mmap \<times> world) option" where
  "mmap_reset_default this w = mmap_reset this nullptr 0 w"

definition mmap_get :: "mmap \<Rightarrow> addr" where
  "mmap_get this = address this"

definition mmap_size :: "mmap \<Rightarrow> size_t" where
  "mmap_size this = length' this"

definition mmap_bool :: "mmap \<Rightarrow> bool" where
  "mmap_bool this \<longleftrightarrow> address this \<noteq> MAP_FAILED"

text \<open>Worlds to run the code in: every call answered by \<open>calm\<close>, a successful answer.\<close>

definition calm :: reply where
  "calm = \<lparr>ret = 0, errno = 0, st_size = 4096, ptr = 65536\<rparr>"

definition interrupted :: reply where
  "interrupted = \<lparr>ret = - 1, errno = EINTR, st_size = 0, ptr = MAP_FAILED\<rparr>"

definition failed :: "int \<Rightarrow> reply" where
  "failed e = \<lparr>ret = - 1, errno = e, st_size = 0, ptr = MAP_FAILED\<rparr>"

fun script :: "reply list \<Rightarrow> nat \<Rightarrow> reply" where
  "script [] n = calm"
| "script (r # rs) 0 = r"
| "script (r # rs) (Suc n) = script rs n"

definition world0 :: "reply list \<Rightarrow> world" where
  "world0 rs = \<lparr>replies = script rs, trace = []\<rparr>"

subsection \<open>Reading a world\<close>

text \<open>
  An answer makes \<open>fd::close\<close> go round its loop again when it reports a failure with
  \<open>errno == EINTR\<close>. A handle is closed last in a world when the last call made is a
  \<open>close\<close> of it that returned 0.
\<close>

definition eintr :: "reply \<Rightarrow> bool" where
  "eintr r \<longleftrightarrow> ret r \<noteq> 0 \<and> errno r = EINTR"

definition closed_last :: "int \<Rightarrow> world \<Rightarrow> bool" where
  "closed_last h w \<longleftrightarrow>
     trace w \<noteq> [] \<and> last (trace w) = Close h \<and> ret (replies w (length (trace w) - 1)) = 0"

section \<open>Proofs: the branchless kernel\<close>

subsection \<open>Sign masks and abs\<close>

lemma mask8_eq: "mask8 (sign_extend_8 v) = (if sint v < 0 then - 1 else 0)"
  by (rule bit_word_eqI)
    (auto simp add: mask8_def hiword8_def sign_extend_8_def bit_simps bit_word_scast_iff
      simp flip: bit_last_iff)

lemma mask16_eq: "mask16 (sign_extend_16 v) = (if sint v < 0 then - 1 else 0)"
  by (rule bit_word_eqI)
    (auto simp add: mask16_def hiword16_def sign_extend_16_def bit_simps bit_word_scast_iff
      simp flip: bit_last_iff)

lemma mask32_eq: "mask32 (sign_extend_32 v) = (if sint v < 0 then - 1 else 0)"
  by (rule bit_word_eqI)
    (auto simp add: mask32_def hiword32_def sign_extend_32_def bit_simps bit_word_scast_iff
      simp flip: bit_last_iff)

lemma mask64_eq: "mask64 (sign_extend_64 v) = (if sint v < 0 then - 1 else 0)"
  by (rule bit_word_eqI)
    (auto simp add: mask64_def hiword64_def sign_extend_64_def bit_simps bit_word_scast_iff
      simp flip: bit_last_iff)

lemma not_plus_1: "NOT x + 1 = - x" for x :: "'a::len word"
  by (rule minus_eq_not_plus_1 [symmetric])

lemma sint_neg:
  fixes v :: "'a::len word"
  assumes "sint v \<noteq> - (2 ^ (LENGTH('a) - 1))"
  shows "sint (- v) = - sint v"
proof -
  have "- (2 ^ (LENGTH('a) - 1)) \<le> sint v" "sint v < 2 ^ (LENGTH('a) - 1)"
    by (rule sint_ge, rule sint_lt)
  with assms have "- (2 ^ (LENGTH('a) - 1)) \<le> - sint v" "- sint v < 2 ^ (LENGTH('a) - 1)"
    by linarith+
  then show ?thesis
    by (simp add: sint_word_minus signed_take_bit_int_eq_self)
qed

lemma sint_promote8: "sint (scast v :: int32) = sint v" for v :: int8
  by (rule sint_up_scast) (simp add: is_up)

lemma sint_promote16: "sint (scast v :: int32) = sint v" for v :: int16
  by (rule sint_up_scast) (simp add: is_up)

lemma abs_int8_eq: "abs_int8 v = (if sint v < 0 then - scast v else scast v)"
  by (simp add: abs_int8_def mask8_eq not_plus_1)

lemma abs_int16_eq: "abs_int16 v = (if sint v < 0 then - scast v else scast v)"
  by (simp add: abs_int16_def mask16_eq not_plus_1)

lemma abs_int32_eq: "abs_int32 v = (if sint v < 0 then - v else v)"
  by (simp add: abs_int32_def mask32_eq not_plus_1)

lemma abs_int64_eq: "abs_int64 v = (if sint v < 0 then - v else v)"
  by (simp add: abs_int64_def mask64_eq not_plus_1)

text \<open>At the two narrow widths the result is an \<open>int\<close>, wide enough for every input.\<close>

lemma abs_int8_sint: "sint (abs_int8 v) = \<bar>sint v\<bar>"
proof -
  have "- (2 ^ (LENGTH(8) - 1)) \<le> sint v" by (rule sint_ge)
  then have "sint (scast v :: int32) \<noteq> - (2 ^ (LENGTH(32) - 1))"
    by (simp add: sint_promote8)
  then have "sint (- (scast v :: int32)) = - sint v"
    by (simp add: sint_neg sint_promote8 del: len_bit0)
  then show ?thesis
    by (simp add: abs_int8_eq sint_promote8)
qed

lemma abs_int16_sint: "sint (abs_int16 v) = \<bar>sint v\<bar>"
proof -
  have "- (2 ^ (LENGTH(16) - 1)) \<le> sint v" by (rule sint_ge)
  then have "sint (scast v :: int32) \<noteq> - (2 ^ (LENGTH(32) - 1))"
    by (simp add: sint_promote16)
  then have "sint (- (scast v :: int32)) = - sint v"
    by (simp add: sint_neg sint_promote16 del: len_bit0)
  then show ?thesis
    by (simp add: abs_int16_eq sint_promote16)
qed

lemma abs_int32_sint: "sint v \<noteq> - 2147483648 \<Longrightarrow> sint (abs_int32 v) = \<bar>sint v\<bar>"
  using sint_neg [of v] by (simp add: abs_int32_eq)

lemma abs_int64_sint: "sint v \<noteq> - 9223372036854775808 \<Longrightarrow> sint (abs_int64 v) = \<bar>sint v\<bar>"
  using sint_neg [of v] by (simp add: abs_int64_eq)

text \<open>
  Away from the most-negative value the subtraction does not overflow: the two's
  complement result is the mathematical difference of the operands.
\<close>

lemma sint_not: "sint (NOT v) = - sint v - 1" for v :: "'a::len word"
proof -
  have "sint (NOT v) = NOT (sint v)"
    by (rule bit_eqI) (auto simp add: bit_simps bit_signed_iff min_def)
  then show ?thesis by (simp add: not_int_def)
qed

lemma abs_int32_exact:
  assumes "sint v \<noteq> - 2147483648"
  shows "sint (abs_int32 v) = sint (v XOR mask32 (sign_extend_32 v)) - sint (mask32 (sign_extend_32 v))"
proof (cases "sint v < 0")
  case True
  have "sint (NOT v) = - sint v - 1" by (rule sint_not)
  with True assms show ?thesis
    using sint_neg [of v] by (simp add: abs_int32_eq mask32_eq)
next
  case False
  then show ?thesis
    by (simp add: abs_int32_eq mask32_eq)
qed

lemma abs_int64_exact:
  assumes "sint v \<noteq> - 9223372036854775808"
  shows "sint (abs_int64 v) = sint (v XOR mask64 (sign_extend_64 v)) - sint (mask64 (sign_extend_64 v))"
proof (cases "sint v < 0")
  case True
  have "sint (NOT v) = - sint v - 1" by (rule sint_not)
  with True assms show ?thesis
    using sint_neg [of v] by (simp add: abs_int64_eq mask64_eq)
next
  case False
  then show ?thesis
    by (simp add: abs_int64_eq mask64_eq)
qed

text \<open>
  C8. For the signed widths 8, 16, 32 and 64 and every value except the most-negative one
  of the width, \<open>abs(v)\<close> is \<open>v\<close> when \<open>v \<ge> 0\<close> and \<open>-v\<close> when \<open>v < 0\<close>.
\<close>

theorem abs_correct:
  fixes a :: int8 and b :: int16 and c :: int32 and d :: int64
  shows "(sint a \<noteq> - 128 \<longrightarrow> sint (abs_int8 a) = (if 0 \<le> sint a then sint a else - sint a))
       \<and> (sint b \<noteq> - 32768 \<longrightarrow> sint (abs_int16 b) = (if 0 \<le> sint b then sint b else - sint b))
       \<and> (sint c \<noteq> - 2147483648 \<longrightarrow> sint (abs_int32 c) = (if 0 \<le> sint c then sint c else - sint c))
       \<and> (sint d \<noteq> - 9223372036854775808 \<longrightarrow>
            sint (abs_int64 d) = (if 0 \<le> sint d then sint d else - sint d))"
  by (simp add: abs_int8_sint abs_int16_sint abs_int32_sint abs_int64_sint abs_if)

theorem abs_correct_witness:
  "sint (- 5 :: int8) \<noteq> - 128 \<and> sint (abs_int8 (- 5)) = 5
   \<and> sint (- 300 :: int16) \<noteq> - 32768 \<and> sint (abs_int16 (- 300)) = 300
   \<and> sint (- 70000 :: int32) \<noteq> - 2147483648 \<and> sint (abs_int32 (- 70000)) = 70000
   \<and> sint (5000000000 :: int64) \<noteq> - 9223372036854775808
   \<and> sint (abs_int64 5000000000) = 5000000000"
  using abs_correct [of "- 5" "- 300" "- 70000" "5000000000"] by simp

text \<open>
  C10. On the most-negative value \<open>abs\<close> depends on the width: at 8 and 16 bits the
  result is the \<open>int\<close> 128 and 32768; at 32 and 64 bits the subtraction leaves the range
  and the two's complement result is the most-negative value again.
\<close>

theorem abs_most_negative:
  "sint (abs_int8 (- 128)) = 128
   \<and> sint (abs_int16 (- 32768)) = 32768
   \<and> abs_int32 (- 2147483648) = - 2147483648
   \<and> sint (abs_int32 (- 2147483648)) = - 2147483648
   \<and> abs_int64 (- 9223372036854775808) = - 9223372036854775808
   \<and> sint (abs_int64 (- 9223372036854775808)) = - 9223372036854775808"
  by (simp add: abs_int8_sint abs_int16_sint abs_int32_eq abs_int64_eq)

subsection \<open>min and max\<close>

text \<open>
  C9. \<open>min(x, y)\<close> is \<open>x\<close> when \<open>x < y\<close> and \<open>y\<close> otherwise, \<open>max(x, y)\<close> is \<open>y\<close> when
  \<open>x < y\<close> and \<open>x\<close> otherwise, for signed and for unsigned types of every width; on
  equal arguments both return the common value.
\<close>

theorem min_max_correct:
  fixes x y :: "'a::len word"
  shows "min_signed x y = (if x <s y then x else y)
       \<and> max_signed x y = (if x <s y then y else x)
       \<and> min_unsigned x y = (if x < y then x else y)
       \<and> max_unsigned x y = (if x < y then y else x)
       \<and> min_signed x x = x \<and> max_signed x x = x
       \<and> min_unsigned x x = x \<and> max_unsigned x x = x"
proof -
  have "y XOR (x XOR y) = x" by (simp add: xor.left_commute)
  moreover have "x XOR (x XOR y) = y" by (simp flip: xor.assoc)
  ultimately show ?thesis
    by (simp add: min_signed_def max_signed_def min_unsigned_def max_unsigned_def)
qed

theorem min_max_correct_witness:
  "min_signed (- 3 :: int8) 5 = - 3 \<and> max_signed (- 3 :: int8) 5 = 5
   \<and> min_unsigned (- 3 :: int8) 5 = 5 \<and> max_unsigned (- 3 :: int8) 5 = - 3"
  using min_max_correct [of "- 3 :: int8" 5] by simp

text \<open>
  For a type narrower than \<open>int\<close> the expression is evaluated on the promoted operands
  and converted back to \<open>T\<close>; the conversion gives the value computed at the width of
  \<open>T\<close>.
\<close>

lemma min_signed_promoted:
  "(ucast (scast y XOR ((scast x XOR scast y) AND - of_bool (x <s y)) :: int32) :: int8) = min_signed x y"
  by (rule bit_word_eqI) (auto simp add: min_signed_def bit_simps bit_word_scast_iff)

subsection \<open>power\_of\_2::isa\<close>

lemma nat_and_pred:
  "(n - 1) AND n = 0 \<longleftrightarrow> n = 0 \<or> (\<exists>k. n = 2 ^ k)" for n :: nat
proof (induction n rule: less_induct)
  case (less n)
  consider "n = 0" | m where "n = 2 * m" "0 < m" | m where "n = 2 * m + 1"
    by (metis neq0_conv mult_0_right oddE evenE)
  then show ?case
  proof cases
    case 1
    then show ?thesis by simp
  next
    case 2
    then have "(n - 1) div 2 = m - 1" "odd (n - 1)" "n div 2 = m" "even n"
      by (auto; presburger)+
    then have eq: "(n - 1) AND n = 2 * ((m - 1) AND m)"
      by (subst and_nat_rec) simp
    from 2 have ih: "(m - 1) AND m = 0 \<longleftrightarrow> m = 0 \<or> (\<exists>k. m = 2 ^ k)"
      by (intro less.IH) simp
    have "(\<exists>k. n = 2 ^ k) \<longleftrightarrow> (\<exists>k. m = 2 ^ k)"
    proof
      assume "\<exists>k. n = 2 ^ k"
      then obtain k where k: "n = 2 ^ k" by blast
      with 2 have "k \<noteq> 0" by (metis \<open>even n\<close> power_0 odd_one)
      then obtain j where "k = Suc j" by (cases k) auto
      with k 2 have "m = 2 ^ j" by simp
      then show "\<exists>k. m = 2 ^ k" by blast
    next
      assume "\<exists>k. m = 2 ^ k"
      then obtain k where "m = 2 ^ k" by blast
      with 2 have "n = 2 ^ Suc k" by simp
      then show "\<exists>k. n = 2 ^ k" by blast
    qed
    with eq ih 2 show ?thesis by simp
  next
    case 3
    then have "(n - 1) div 2 = m" "even (n - 1)" "n div 2 = m" "odd n"
      by simp_all
    then have eq: "(n - 1) AND n = 2 * m"
      by (subst and_nat_rec) simp
    have "(\<exists>k. n = 2 ^ k) \<longleftrightarrow> m = 0"
    proof
      assume "\<exists>k. n = 2 ^ k"
      then obtain k where k: "n = 2 ^ k" by blast
      with \<open>odd n\<close> have "k = 0" by (cases k) auto
      with k 3 show "m = 0" by simp
    next
      assume "m = 0"
      with 3 have "n = 2 ^ 0" by simp
      then show "\<exists>k. n = 2 ^ k" by blast
    qed
    with eq 3 show ?thesis by simp
  qed
qed

lemma isa_iff_nat: "isa v \<longleftrightarrow> unat v = 0 \<or> (\<exists>k. unat v = 2 ^ k)" for v :: "'a::len word"
proof (cases "v = 0")
  case True
  then show ?thesis by (simp add: isa_def)
next
  case False
  then have "unat ((v - 1) AND v) = (unat v - 1) AND unat v"
    by (simp add: unsigned_and_eq unat_minus_one)
  then have "isa v \<longleftrightarrow> (unat v - 1) AND unat v = 0"
    by (simp add: isa_def word_unat_eq_iff [of _ 0])
  then show ?thesis
    by (simp only: nat_and_pred)
qed

lemma unat_exp: "k < LENGTH('a) \<Longrightarrow> unat (2 ^ k :: 'a::len word) = 2 ^ k"
  by (simp add: of_nat_inverse)

lemma unat_eq_exp: "unat v = 2 ^ k \<longleftrightarrow> k < LENGTH('a) \<and> v = 2 ^ k" for v :: "'a::len word"
proof
  assume a: "unat v = 2 ^ k"
  have "unat v < 2 ^ LENGTH('a)" by (rule unsigned_less)
  with a have k: "k < LENGTH('a)" by simp
  with a have "unat v = unat (2 ^ k :: 'a word)" by (simp add: unat_exp)
  then have "v = 2 ^ k" by (simp only: word_unat_eq_iff)
  with k show "k < LENGTH('a) \<and> v = 2 ^ k" by simp
next
  assume "k < LENGTH('a) \<and> v = 2 ^ k"
  then show "unat v = 2 ^ k" by (simp add: unat_exp)
qed

text \<open>
  C4. \<open>power_of_2::isa(v)\<close> is true exactly when \<open>v\<close> is 0 or one of the powers of two
  1, 2, 4, ..., 2^(w-1) of the width \<open>w\<close>.
\<close>

theorem isa_iff:
  fixes v :: "'a::len word"
  shows "isa v \<longleftrightarrow> v = 0 \<or> (\<exists>k<LENGTH('a). v = 2 ^ k)"
  by (auto simp add: isa_iff_nat unat_eq_exp unat_eq_0)

theorem isa_iff_witness: "isa (8 :: 32 word) \<and> isa (0 :: 32 word)"
  using isa_iff [of "8 :: 32 word"] isa_iff [of "0 :: 32 word"]
  by (auto intro: exI [of _ 3])

subsection \<open>power\_of\_2::roundup\<close>

text \<open>
  Each \<open>value |= value >> m\<close> doubles the run of bits that a set bit fills below it:
  after the five steps, bit \<open>n\<close> is set exactly when one of the 32 bits of \<open>value - 1\<close>
  from \<open>n\<close> upwards is.
\<close>

lemma smear_step:
  fixes x y :: "'a::len word"
  assumes "\<And>n. bit y n = (\<exists>k<m. bit x (n + k))"
  shows "bit (y OR drop_bit m y) n = (\<exists>k<2 * m. bit x (n + k))"
proof -
  have "bit (y OR drop_bit m y) n \<longleftrightarrow> bit y n \<or> bit y (m + n)"
    by (simp add: bit_or_iff bit_drop_bit_eq)
  also have "\<dots> \<longleftrightarrow> (\<exists>k<m. bit x (n + k)) \<or> (\<exists>k<m. bit x (n + (m + k)))"
    by (simp add: assms ac_simps)
  also have "\<dots> \<longleftrightarrow> (\<exists>k<2 * m. bit x (n + k))"
  proof
    assume "(\<exists>k<m. bit x (n + k)) \<or> (\<exists>k<m. bit x (n + (m + k)))"
    then show "\<exists>k<2 * m. bit x (n + k)"
    proof
      assume "\<exists>k<m. bit x (n + k)"
      then obtain k where "k < m" "bit x (n + k)" by blast
      then have "k < 2 * m \<and> bit x (n + k)" by simp
      then show ?thesis by blast
    next
      assume "\<exists>k<m. bit x (n + (m + k))"
      then obtain k where "k < m" "bit x (n + (m + k))" by blast
      then have "m + k < 2 * m \<and> bit x (n + (m + k))" by simp
      then show ?thesis by blast
    qed
  next
    assume "\<exists>k<2 * m. bit x (n + k)"
    then obtain k where k: "k < 2 * m" "bit x (n + k)" by blast
    show "(\<exists>k<m. bit x (n + k)) \<or> (\<exists>k<m. bit x (n + (m + k)))"
    proof (cases "k < m")
      case True
      with k show ?thesis by blast
    next
      case False
      with k have "k - m < m" "bit x (n + (m + (k - m)))" by simp_all
      then show ?thesis by blast
    qed
  qed
  finally show ?thesis .
qed

lemma roundup_bits:
  fixes v :: "'a::len word"
  shows "bit (roundup v - 1) n = (\<exists>k<32. bit (v - 1) (n + k))"
proof -
  define v0 where "v0 = v - 1"
  define v1 where "v1 = v0 OR drop_bit 1 v0"
  define v2 where "v2 = v1 OR drop_bit 2 v1"
  define v3 where "v3 = v2 OR drop_bit 4 v2"
  define v4 where "v4 = v3 OR drop_bit 8 v3"
  define v5 where "v5 = v4 OR drop_bit 16 v4"
  have b0: "bit v0 n = (\<exists>k<1. bit v0 (n + k))" for n by simp
  have b1: "bit v1 n = (\<exists>k<2. bit v0 (n + k))" for n
    unfolding v1_def using smear_step [of v0 1 v0 n, OF b0] by simp
  have b2: "bit v2 n = (\<exists>k<4. bit v0 (n + k))" for n
    unfolding v2_def using smear_step [of v1 2 v0 n, OF b1] by simp
  have b3: "bit v3 n = (\<exists>k<8. bit v0 (n + k))" for n
    unfolding v3_def using smear_step [of v2 4 v0 n, OF b2] by simp
  have b4: "bit v4 n = (\<exists>k<16. bit v0 (n + k))" for n
    unfolding v4_def using smear_step [of v3 8 v0 n, OF b3] by simp
  have b5: "bit v5 n = (\<exists>k<32. bit v0 (n + k))" for n
    unfolding v5_def using smear_step [of v4 16 v0 n, OF b4] by simp
  have "roundup v = v5 + 1"
    by (simp add: roundup_def Let_def v5_def v4_def v3_def v2_def v1_def v0_def)
  then show ?thesis
    by (simp add: b5 v0_def)
qed

lemma top_bit:
  fixes x :: "'a::len word"
  assumes "x \<noteq> 0"
  obtains p where "bit x p" "\<And>m. p < m \<Longrightarrow> \<not> bit x m"
proof -
  let ?S = "{n. bit x n}"
  have "?S \<subseteq> {..<LENGTH('a)}"
    by (auto dest: bit_imp_le_length)
  then have fin: "finite ?S"
    by (rule finite_subset) simp
  from assms have ne: "?S \<noteq> {}"
    by (auto simp add: bit_eq_iff)
  from fin ne have "Max ?S \<in> ?S" by (rule Max_in)
  moreover have "\<not> bit x m" if "Max ?S < m" for m
  proof
    assume "bit x m"
    then have "m \<le> Max ?S" using fin by (simp add: Max_ge)
    with that show False by simp
  qed
  ultimately show ?thesis
    using that by blast
qed

lemma nat_bit_lower: "bit n p \<Longrightarrow> 2 ^ p \<le> n" for n :: nat
proof -
  assume "bit n p"
  then have "odd (n div 2 ^ p)" by (simp add: bit_iff_odd)
  then have "n div 2 ^ p \<noteq> 0" by (metis even_zero)
  then show ?thesis
    by (metis div_less not_le)
qed

lemma nat_bit_upper: "(\<And>m. p < m \<Longrightarrow> \<not> bit n m) \<Longrightarrow> n < 2 ^ Suc p" for n :: nat
proof -
  assume a: "\<And>m. p < m \<Longrightarrow> \<not> bit n m"
  have "take_bit (Suc p) n = n"
    by (rule bit_eqI) (use a in \<open>auto simp add: bit_take_bit_iff less_Suc_eq_le intro: leI\<close>)
  then show ?thesis
    by (simp only: take_bit_nat_eq_self_iff)
qed

lemma bit_lower: "bit x p \<Longrightarrow> 2 ^ p \<le> unat x" for x :: "'a::len word"
  by (rule nat_bit_lower) (simp add: bit_unsigned_iff)

lemma bit_upper: "(\<And>m. p < m \<Longrightarrow> \<not> bit x m) \<Longrightarrow> unat x < 2 ^ Suc p" for x :: "'a::len word"
  by (rule nat_bit_upper) (simp add: bit_unsigned_iff)

lemma roundup_exp: "k < LENGTH('a) \<Longrightarrow> roundup (2 ^ k :: 'a::len word) = 2 ^ k"
proof -
  assume k: "k < LENGTH('a)"
  have "roundup (2 ^ k :: 'a word) - 1 = mask k"
    by (rule bit_word_eqI) (auto simp add: roundup_bits bit_mask_iff simp flip: mask_eq_exp_minus_1 intro: exI [of _ 0])
  then have "roundup (2 ^ k :: 'a word) = mask k + 1"
    by (metis diff_add_cancel)
  then show ?thesis
    by (simp add: inc_mask_eq_exp)
qed

lemma roundup_top:
  fixes v :: "'a::len word"
  assumes "bit (v - 1) p" "\<And>m. p < m \<Longrightarrow> \<not> bit (v - 1) m" "p < 32"
  shows "roundup v = 2 ^ Suc p"
proof -
  have "roundup v - 1 = mask (Suc p)"
  proof (rule bit_word_eqI)
    fix n assume "n < LENGTH('a)"
    show "bit (roundup v - 1) n = bit (mask (Suc p) :: 'a word) n"
    proof (cases "n \<le> p")
      case True
      with assms have "p - n < 32 \<and> bit (v - 1) (n + (p - n))" by simp
      then have "\<exists>k<32. bit (v - 1) (n + k)" by blast
      with True \<open>n < LENGTH('a)\<close> show ?thesis
        by (simp add: roundup_bits bit_mask_iff)
    next
      case False
      then have "\<not> bit (v - 1) (n + k)" for k
        by (intro assms(2)) simp
      with False show ?thesis
        by (simp add: roundup_bits bit_mask_iff)
    qed
  qed
  then have "roundup v = mask (Suc p) + 1"
    by (metis diff_add_cancel)
  then show ?thesis
    by (simp only: inc_mask_eq_exp)
qed

lemma roundup_least:
  fixes v :: "'a::len word"
  assumes "0 < v" "unat v \<le> 2 ^ (LENGTH('a) - 1)" "unat v \<le> 2 ^ 32"
  shows "\<exists>k<LENGTH('a). roundup v = 2 ^ k \<and> unat v \<le> 2 ^ k \<and> (\<forall>j. unat v \<le> 2 ^ j \<longrightarrow> k \<le> j)"
proof (cases "v = 1")
  case True
  have "roundup (2 ^ 0 :: 'a word) = 2 ^ 0"
    by (rule roundup_exp) simp
  with True show ?thesis
    by (intro exI [of _ 0]) simp
next
  case False
  with assms(1) have x0: "v - 1 \<noteq> 0" by simp
  from assms(1) have ux: "unat (v - 1) = unat v - 1" "0 < unat v"
    by (simp_all add: unat_minus_one word_greater_zero_iff unat_gt_0)
  from x0 obtain p where p: "bit (v - 1) p" "\<And>m. p < m \<Longrightarrow> \<not> bit (v - 1) m"
    by (rule top_bit) blast
  from p(1) have lo: "2 ^ p \<le> unat (v - 1)" by (rule bit_lower)
  from p(2) have hi: "unat (v - 1) < 2 ^ Suc p" by (rule bit_upper)
  from lo ux have "(2::nat) ^ p < unat v" by simp
  have lt: "(2::nat) ^ p < unat v" using lo ux by simp
  from lt assms(2) have "(2::nat) ^ p < 2 ^ (LENGTH('a) - 1)" by (rule less_le_trans)
  then have pl1: "p < LENGTH('a) - 1" by (rule power_less_imp_less_exp [rotated]) simp
  from lt assms(3) have "(2::nat) ^ p < 2 ^ 32" by (rule less_le_trans)
  then have pl2: "p < 32" by (rule power_less_imp_less_exp [rotated]) simp
  note pl = pl1 pl2
  with p have r: "roundup v = 2 ^ Suc p" by (intro roundup_top)
  have "Suc p \<le> j" if "unat v \<le> 2 ^ j" for j
  proof -
    from lt that have "(2::nat) ^ p < 2 ^ j" by (rule less_le_trans)
    then have "p < j" by (rule power_less_imp_less_exp [rotated]) simp
    then show ?thesis by simp
  qed
  moreover from hi ux have "unat v \<le> 2 ^ Suc p" by simp
  moreover from pl have "Suc p < LENGTH('a)" by simp
  ultimately show ?thesis
    using r by blast
qed

lemma roundup_wraps:
  fixes v :: "'a::len word"
  assumes "LENGTH('a) \<le> 32" "2 ^ (LENGTH('a) - 1) < unat v"
  shows "roundup v = 0"
proof -
  have "(1::nat) \<le> 2 ^ (LENGTH('a) - 1)" by simp
  with assms(2) have u: "1 < unat v" by linarith
  then have "v \<noteq> 0" by (auto simp add: unat_eq_0)
  then have ux: "unat (v - 1) = unat v - 1" by (rule unat_minus_one)
  with u have "v - 1 \<noteq> 0" by (auto simp add: unat_eq_0 simp flip: unat_eq_0 [of "v - 1"])
  then obtain p where p: "bit (v - 1) p" "\<And>m. p < m \<Longrightarrow> \<not> bit (v - 1) m"
    by (rule top_bit) blast
  from p(2) have "unat (v - 1) < 2 ^ Suc p" by (rule bit_upper)
  with ux assms(2) have "(2::nat) ^ (LENGTH('a) - 1) < 2 ^ Suc p" by linarith
  then have "LENGTH('a) - 1 < Suc p" by (rule power_less_imp_less_exp [rotated]) simp
  moreover from p(1) have "p < LENGTH('a)" by (rule bit_imp_le_length)
  ultimately have pl: "Suc p = LENGTH('a)" by linarith
  with assms(1) have "p < 32" by linarith
  with p have "roundup v = 2 ^ Suc p" by (intro roundup_top)
  with pl show ?thesis by simp
qed

text \<open>
  C1, as the code has it. A power of two is returned unchanged at every width. A value
  \<open>v > 0\<close> that is at most \<open>2^(w-1)\<close> and at most \<open>2^32\<close> is rounded up to the least
  power of two that is not below it. Above \<open>2^(w-1)\<close> no power of two of the width
  is left, and at the widths up to 32 bits the result wraps to 0.
\<close>

theorem roundup_correct:
  fixes v :: "'a::len word"
  shows "(\<forall>k<LENGTH('a). roundup (2 ^ k :: 'a word) = 2 ^ k)
       \<and> (0 < v \<and> unat v \<le> 2 ^ (LENGTH('a) - 1) \<and> unat v \<le> 2 ^ 32 \<longrightarrow>
            (\<exists>k<LENGTH('a). roundup v = 2 ^ k \<and> unat v \<le> 2 ^ k \<and> (\<forall>j. unat v \<le> 2 ^ j \<longrightarrow> k \<le> j)))
       \<and> (LENGTH('a) \<le> 32 \<and> 2 ^ (LENGTH('a) - 1) < unat v \<longrightarrow> roundup v = 0)"
  using roundup_exp [where 'a = 'a] roundup_least [of v] roundup_wraps [of v] by blast

theorem roundup_correct_witness:
  "roundup (2 ^ 40 :: 64 word) = 2 ^ 40
   \<and> 0 < (5 :: 64 word) \<and> unat (5 :: 64 word) \<le> 2 ^ (64 - 1) \<and> unat (5 :: 64 word) \<le> 2 ^ 32
   \<and> (\<exists>k<64. roundup (5 :: 64 word) = 2 ^ k \<and> unat (5 :: 64 word) \<le> 2 ^ k
         \<and> (\<forall>j. unat (5 :: 64 word) \<le> 2 ^ j \<longrightarrow> k \<le> j))
   \<and> LENGTH(16) \<le> (32 :: nat) \<and> 2 ^ (LENGTH(16) - 1) < unat (40000 :: 16 word)
   \<and> roundup (40000 :: 16 word) = 0"
  using roundup_correct [of "5 :: 64 word", THEN conjunct1, rule_format, of 40]
    roundup_correct [of "5 :: 64 word", THEN conjunct2, THEN conjunct1]
    roundup_correct [of "40000 :: 16 word", THEN conjunct2, THEN conjunct2]
  by simp

text \<open>
  C1 as stated fails: at 32 bits the input \<open>2^31 + 1\<close> gives 0, and at 64 bits the input
  \<open>2^32 + 1\<close> gives \<open>2^33 - 1\<close>, where the next power of two is \<open>2^33\<close>.
\<close>

theorem roundup_counterexample:
  "roundup (2147483649 :: 32 word) = 0
   \<and> roundup (4294967297 :: 64 word) = 8589934591
   \<and> (8589934591 :: 64 word) \<noteq> 2 ^ 33"
  by (simp add: roundup_def)

section \<open>Proofs: the wrappers\<close>

subsection \<open>The close loop\<close>

lemma sys_simps:
  "fst (sys c w) = replies w (length (trace w))"
  "snd (sys c w) = w\<lparr>trace := trace w @ [c]\<rparr>"
  by (simp_all add: sys_def)

lemma close_loop_success:
  "ret (replies w (length (trace w))) = 0 \<Longrightarrow>
   close_loop what h w = Some (Inr (), w\<lparr>trace := trace w @ [Close h]\<rparr>)"
  by (subst close_loop.simps) (simp add: sys_simps)

lemma close_loop_failure:
  "ret (replies w (length (trace w))) \<noteq> 0 \<Longrightarrow> errno (replies w (length (trace w))) \<noteq> EINTR \<Longrightarrow>
   close_loop what h w =
     Some (Inl (system_error (errno (replies w (length (trace w)))) what),
           w\<lparr>trace := trace w @ [Close h]\<rparr>)"
  by (subst close_loop.simps) (simp add: sys_simps)

lemma close_loop_again:
  "eintr (replies w (length (trace w))) \<Longrightarrow>
   close_loop what h w = close_loop what h (w\<lparr>trace := trace w @ [Close h]\<rparr>)"
  by (subst close_loop.simps) (simp add: sys_simps eintr_def)

lemma close_loop_retry:
  "\<forall>i<k. eintr (replies w (length (trace w) + i)) \<Longrightarrow>
   close_loop what h w = close_loop what h (w\<lparr>trace := trace w @ replicate k (Close h)\<rparr>)"
proof (induction k arbitrary: w)
  case 0
  then show ?case by simp
next
  case (Suc k)
  let ?w1 = "w\<lparr>trace := trace w @ [Close h]\<rparr>"
  from Suc.prems have "eintr (replies w (length (trace w)))"
    by (metis add.right_neutral zero_less_Suc)
  then have "close_loop what h w = close_loop what h ?w1"
    by (rule close_loop_again)
  also have "\<forall>i<k. eintr (replies ?w1 (length (trace ?w1) + i))"
  proof (intro allI impI)
    fix i assume "i < k"
    then have "Suc i < Suc k" by simp
    with Suc.prems have "eintr (replies w (length (trace w) + Suc i))" by blast
    then show "eintr (replies ?w1 (length (trace ?w1) + i))" by simp
  qed
  then have "close_loop what h ?w1 = close_loop what h (?w1\<lparr>trace := trace ?w1 @ replicate k (Close h)\<rparr>)"
    by (rule Suc.IH)
  finally show ?case by (simp add: replicate_app_Cons_same)
qed

text \<open>What the loop has done when it returns: partial correctness, by fixpoint induction.\<close>

lemma close_loop_returns_aux:
  assumes "close_loop what h w = Some y"
  shows "\<exists>k. snd y = w\<lparr>trace := trace w @ replicate (Suc k) (Close h)\<rparr>
     \<and> (\<forall>i<k. eintr (replies w (length (trace w) + i)))
     \<and> (fst y = Inr () \<and> ret (replies w (length (trace w) + k)) = 0
        \<or> fst y = Inl (system_error (errno (replies w (length (trace w) + k))) what)
          \<and> ret (replies w (length (trace w) + k)) \<noteq> 0
          \<and> errno (replies w (length (trace w) + k)) \<noteq> EINTR)"
proof -
  let ?P = "\<lambda>what h w y. \<exists>k. snd y = w\<lparr>trace := trace w @ replicate (Suc k) (Close h)\<rparr>
     \<and> (\<forall>i<k. eintr (replies w (length (trace w) + i)))
     \<and> (fst y = Inr () \<and> ret (replies w (length (trace w) + k)) = 0
        \<or> fst y = Inl (system_error (errno (replies w (length (trace w) + k))) what)
          \<and> ret (replies w (length (trace w) + k)) \<noteq> 0
          \<and> errno (replies w (length (trace w) + k)) \<noteq> EINTR)"
  have "?P what h w y"
  proof (rule close_loop.raw_induct [of ?P, OF _ assms])
    fix loop :: "string \<Rightarrow> int \<Rightarrow> world \<Rightarrow> ((error + unit) \<times> world) option"
    fix what h w y
    assume IH: "\<And>what h w y. loop what h w = Some y \<Longrightarrow> ?P what h w y"
    assume body: "(let r = fst (sys (Close h) w); w' = snd (sys (Close h) w)
        in if ret r = 0 then Some (Inr (), w')
           else if errno r = EINTR then loop what h w'
           else Some (Inl (system_error (errno r) what), w')) = Some y"
    let ?r = "replies w (length (trace w))"
    let ?w1 = "w\<lparr>trace := trace w @ [Close h]\<rparr>"
    show "?P what h w y"
    proof (cases "ret ?r = 0")
      case True
      with body have y: "y = (Inr (), ?w1)" by (simp add: sys_simps)
      show ?thesis by (rule exI [where x = 0]) (use True y in simp)
    next
      case False
      show ?thesis
      proof (cases "errno ?r = EINTR")
        case neq: False
        with False body have y: "y = (Inl (system_error (errno ?r) what), ?w1)"
          by (simp add: sys_simps)
        show ?thesis by (rule exI [where x = 0]) (use False neq y in simp)
      next
        case True
        with False body have "loop what h ?w1 = Some y"
          by (simp add: sys_simps)
        then have "?P what h ?w1 y" by (rule IH)
        then obtain k where k: "snd y = ?w1\<lparr>trace := trace ?w1 @ replicate (Suc k) (Close h)\<rparr>"
          "\<forall>i<k. eintr (replies ?w1 (length (trace ?w1) + i))"
          "fst y = Inr () \<and> ret (replies ?w1 (length (trace ?w1) + k)) = 0
            \<or> fst y = Inl (system_error (errno (replies ?w1 (length (trace ?w1) + k))) what)
              \<and> ret (replies ?w1 (length (trace ?w1) + k)) \<noteq> 0
              \<and> errno (replies ?w1 (length (trace ?w1) + k)) \<noteq> EINTR"
          by blast
        have "\<forall>i<Suc k. eintr (replies w (length (trace w) + i))"
        proof (intro allI impI)
          fix i assume i: "i < Suc k"
          show "eintr (replies w (length (trace w) + i))"
          proof (cases i)
            case 0
            with True False show ?thesis by (simp add: eintr_def)
          next
            case (Suc j)
            with i k(2) have "eintr (replies ?w1 (length (trace ?w1) + j))" by simp
            with Suc show ?thesis by simp
          qed
        qed
        moreover from k(1) have "snd y = w\<lparr>trace := trace w @ replicate (Suc (Suc k)) (Close h)\<rparr>"
          by simp
        moreover from k(3) have "fst y = Inr () \<and> ret (replies w (length (trace w) + Suc k)) = 0
            \<or> fst y = Inl (system_error (errno (replies w (length (trace w) + Suc k))) what)
              \<and> ret (replies w (length (trace w) + Suc k)) \<noteq> 0
              \<and> errno (replies w (length (trace w) + Suc k)) \<noteq> EINTR"
          by simp
        ultimately show ?thesis by blast
      qed
    qed
  qed
  then show ?thesis .
qed

lemma close_loop_returns:
  assumes "close_loop what h w = Some (res, w')"
  shows "\<exists>k. w' = w\<lparr>trace := trace w @ replicate (Suc k) (Close h)\<rparr>
           \<and> (\<forall>i<k. eintr (replies w (length (trace w) + i)))
           \<and> (res = Inr () \<and> ret (replies w (length (trace w) + k)) = 0
              \<or> res = Inl (system_error (errno (replies w (length (trace w) + k))) what)
                \<and> ret (replies w (length (trace w) + k)) \<noteq> 0
                \<and> errno (replies w (length (trace w) + k)) \<noteq> EINTR)"
  using close_loop_returns_aux [OF assms] by simp

text \<open>An operating system that interrupts every \<open>close\<close> keeps the loop going for ever.\<close>

lemma close_loop_diverges:
  assumes "\<forall>i. eintr (replies w (length (trace w) + i))"
  shows "close_loop what h w = None"
proof (rule ccontr)
  assume "close_loop what h w \<noteq> None"
  then obtain res w' where "close_loop what h w = Some (res, w')" by auto
  from close_loop_returns [OF this] assms show False
    by (auto simp add: eintr_def)
qed

lemma close_loop_total:
  assumes "\<forall>i<k. eintr (replies w (length (trace w) + i))"
  shows "ret (replies w (length (trace w) + k)) = 0 \<Longrightarrow>
           close_loop what h w = Some (Inr (), w\<lparr>trace := trace w @ replicate (Suc k) (Close h)\<rparr>)"
    and "ret (replies w (length (trace w) + k)) \<noteq> 0 \<Longrightarrow>
         errno (replies w (length (trace w) + k)) \<noteq> EINTR \<Longrightarrow>
           close_loop what h w =
             Some (Inl (system_error (errno (replies w (length (trace w) + k))) what),
                   w\<lparr>trace := trace w @ replicate (Suc k) (Close h)\<rparr>)"
proof -
  let ?wk = "w\<lparr>trace := trace w @ replicate k (Close h)\<rparr>"
  have step: "close_loop what h w = close_loop what h ?wk"
    using assms by (rule close_loop_retry)
  have tr: "?wk\<lparr>trace := trace ?wk @ [Close h]\<rparr> = w\<lparr>trace := trace w @ replicate (Suc k) (Close h)\<rparr>"
    by (simp add: replicate_append_same)
  show "close_loop what h w = Some (Inr (), w\<lparr>trace := trace w @ replicate (Suc k) (Close h)\<rparr>)"
    if "ret (replies w (length (trace w) + k)) = 0"
  proof -
    from that have "ret (replies ?wk (length (trace ?wk))) = 0" by simp
    then have "close_loop what h ?wk = Some (Inr (), ?wk\<lparr>trace := trace ?wk @ [Close h]\<rparr>)"
      by (rule close_loop_success)
    then show ?thesis by (simp only: step tr)
  qed
  show "close_loop what h w =
      Some (Inl (system_error (errno (replies w (length (trace w) + k))) what),
            w\<lparr>trace := trace w @ replicate (Suc k) (Close h)\<rparr>)"
    if "ret (replies w (length (trace w) + k)) \<noteq> 0" "errno (replies w (length (trace w) + k)) \<noteq> EINTR"
  proof -
    have r: "replies ?wk (length (trace ?wk)) = replies w (length (trace w) + k)" by simp
    from that have "ret (replies ?wk (length (trace ?wk))) \<noteq> 0"
      "errno (replies ?wk (length (trace ?wk))) \<noteq> EINTR" by simp_all
    then have "close_loop what h ?wk =
        Some (Inl (system_error (errno (replies ?wk (length (trace ?wk)))) what),
              ?wk\<lparr>trace := trace ?wk @ [Close h]\<rparr>)"
      by (rule close_loop_failure)
    then show ?thesis by (simp only: step tr r)
  qed
qed

subsection \<open>The release algorithm\<close>

text \<open>
  C5. On a handle that is not the sentinel, \<open>fd::close\<close> of either header calls the
  underlying \<open>close\<close> again after every failure with \<open>EINTR\<close>. After \<open>k\<close> such
  failures the next answer decides: on success the handle becomes the sentinel; on any
  other failure the call throws at once a \<open>system_error\<close> with the value of \<open>errno\<close>,
  and the handle stays. The trace holds the \<open>k + 1\<close> calls and nothing else.
\<close>

theorem fd_close_release_algorithm:
  assumes "handle this \<noteq> invalid"
    and "\<forall>i<k. eintr (replies w (length (trace w) + i))"
  shows "(ret (replies w (length (trace w) + k)) = 0 \<longrightarrow>
            fd_close this w =
              Some (Inr (), this\<lparr>handle := invalid\<rparr>,
                    w\<lparr>trace := trace w @ replicate (Suc k) (Close (handle this))\<rparr>)
          \<and> fd_close_strict this w =
              Some (Inr (), this\<lparr>handle := invalid\<rparr>,
                    w\<lparr>trace := trace w @ replicate (Suc k) (Close (handle this))\<rparr>))
       \<and> (ret (replies w (length (trace w) + k)) \<noteq> 0
          \<and> errno (replies w (length (trace w) + k)) \<noteq> EINTR \<longrightarrow>
            fd_close this w =
              Some (Inl (system_error (errno (replies w (length (trace w) + k))) ''close''), this,
                    w\<lparr>trace := trace w @ replicate (Suc k) (Close (handle this))\<rparr>)
          \<and> fd_close_strict this w =
              Some (Inl (system_error (errno (replies w (length (trace w) + k))) []), this,
                    w\<lparr>trace := trace w @ replicate (Suc k) (Close (handle this))\<rparr>))"
  using assms(1) close_loop_total [OF assms(2)]
  by (simp add: fd_close_def fd_close_strict_def del: replicate_Suc)

lemma script_simps:
  "replies (world0 rs) = script rs"
  "trace (world0 rs) = []"
  by (simp_all add: world0_def)

theorem fd_close_release_algorithm_witness:
  "fd_close (fd_ctor 3) (world0 [interrupted, interrupted, calm]) =
     Some (Inr (), fd_ctor invalid,
           (world0 [interrupted, interrupted, calm])\<lparr>trace := [Close 3, Close 3, Close 3]\<rparr>)
   \<and> fd_close_strict (fd_ctor 3) (world0 [interrupted, failed 5]) =
     Some (Inl (system_error 5 []), fd_ctor 3,
           (world0 [interrupted, failed 5])\<lparr>trace := [Close 3, Close 3]\<rparr>)"
  using fd_close_release_algorithm [of "fd_ctor 3" "Suc (Suc 0)" "world0 [interrupted, interrupted, calm]"]
    fd_close_release_algorithm [of "fd_ctor 3" "Suc 0" "world0 [interrupted, failed 5]"]
  by (simp add: fd_ctor_def invalid_def script_simps eintr_def interrupted_def calm_def failed_def
      EINTR_def less_Suc_eq)

subsection \<open>Release\<close>

text \<open>
  C7. \<open>release()\<close> of either \<open>fd\<close> and of \<open>mmap\<close> never fails, returns what the object
  owned, leaves the sentinel (for a region the sentinel and length 0) and leaves the
  world as it was: no \<open>close\<close> and no \<open>munmap\<close> is called.
\<close>

theorem release_returns_owned_value:
  "(\<exists>this'. fd_release this w = Some (Inr (fd_get this), this', w)
       \<and> fd_get this' = invalid \<and> \<not> fd_bool this')
   \<and> (\<exists>this'. fd_release_strict this w = Some (Inr (fd_get this), this', w)
       \<and> fd_get this' = invalid \<and> \<not> fd_bool this')
   \<and> (\<exists>region'. mmap_release region w = Some (Inr (mmap_get region, mmap_size region), region', w)
       \<and> mmap_get region' = MAP_FAILED \<and> mmap_size region' = 0 \<and> \<not> mmap_bool region')"
  by (simp add: fd_release_def fd_release_strict_def mmap_release_def fd_get_def fd_bool_def
      mmap_get_def mmap_size_def mmap_bool_def)

subsection \<open>The strict header on the sentinel\<close>

text \<open>
  C2, as the code has it. In the strict header the private \<open>close\<close> throws \<open>EBADF\<close> on
  the sentinel, but move assignment, assignment from a raw value, \<open>reset\<close> and the
  destructor test \<open>handle != invalid\<close> before they call it: on a sentinel they do not
  throw, call nothing, and adopt the new value.
\<close>

theorem strict_sentinel_is_skipped:
  assumes "handle this = invalid"
  shows "fd_close_strict this w = Some (Inl (system_error EBADF []), this, w)
       \<and> fd_assign_move_strict this other w =
           Some (Inr (), this\<lparr>handle := handle other\<rparr>, other\<lparr>handle := invalid\<rparr>, w)
       \<and> fd_assign_raw_strict this raw w = Some (Inr (), this\<lparr>handle := raw\<rparr>, w)
       \<and> fd_reset_strict this raw w = Some (Inr (), this\<lparr>handle := raw\<rparr>, w)
       \<and> fd_destroy_strict this w = Some (Inr (), this, w)"
  using assms
  by (simp add: fd_close_strict_def fd_assign_move_strict_def fd_assign_raw_strict_def
      fd_reset_strict_def fd_destroy_strict_def)

theorem strict_sentinel_is_skipped_witness:
  "fd_close_strict (fd_ctor invalid) (world0 []) =
     Some (Inl (system_error EBADF []), fd_ctor invalid, world0 [])
   \<and> fd_reset_strict (fd_ctor invalid) 7 (world0 []) = Some (Inr (), fd_ctor 7, world0 [])"
  using strict_sentinel_is_skipped [of "fd_ctor invalid" "world0 []" "fd_ctor 7" 7]
  by (simp add: fd_ctor_def)

text \<open>
  C2 as stated fails: on a sentinel \<open>fd\<close> of the strict header the four operations
  return normally.
\<close>

theorem strict_sentinel_counterexample:
  "fd_assign_move_strict (fd_ctor invalid) (fd_ctor 7) (world0 []) =
     Some (Inr (), fd_ctor 7, fd_ctor invalid, world0 [])
   \<and> fd_assign_raw_strict (fd_ctor invalid) 7 (world0 []) = Some (Inr (), fd_ctor 7, world0 [])
   \<and> fd_reset_strict (fd_ctor invalid) invalid (world0 []) =
     Some (Inr (), fd_ctor invalid, world0 [])
   \<and> fd_destroy_strict (fd_ctor invalid) (world0 []) = Some (Inr (), fd_ctor invalid, world0 [])"
  by (simp add: fd_assign_move_strict_def fd_assign_raw_strict_def fd_reset_strict_def
      fd_destroy_strict_def fd_ctor_def)

subsection \<open>reset() of a region with its default arguments\<close>

text \<open>
  C3 fails on the code. The sentinel of a region is \<open>MAP_FAILED\<close>: \<open>close\<close>, \<open>release\<close>
  and the moves test it and store it. \<open>reset()\<close> has the default \<open>address = nullptr\<close>:
  it leaves a region that owns no mapping, is not the sentinel and converts to \<open>true\<close>,
  and whose destructor calls \<open>munmap(nullptr, 0)\<close> (which the
  operating system refuses with \<open>EINVAL\<close>, 22).
\<close>

theorem mmap_reset_default_not_sentinel:
  "mmap_reset_default \<lparr>address = MAP_FAILED, length' = 0\<rparr> (world0 []) =
     Some (Inr (), \<lparr>address = nullptr, length' = 0\<rparr>, world0 [])
   \<and> mmap_reset_default \<lparr>address = 65536, length' = 4096\<rparr> (world0 []) =
     Some (Inr (), \<lparr>address = nullptr, length' = 0\<rparr>, (world0 [])\<lparr>trace := [Munmap 65536 4096]\<rparr>)
   \<and> mmap_bool \<lparr>address = nullptr, length' = 0\<rparr>
   \<and> mmap_get \<lparr>address = nullptr, length' = 0\<rparr> \<noteq> MAP_FAILED
   \<and> mmap_destroy \<lparr>address = nullptr, length' = 0\<rparr> (world0 [failed 22]) =
     Some (Inl (system_error 22 ''munmap''), \<lparr>address = nullptr, length' = 0\<rparr>,
           (world0 [failed 22])\<lparr>trace := [Munmap nullptr 0]\<rparr>)"
  by (simp add: mmap_reset_default_def mmap_reset_def mmap_close_def mmap_destroy_def mmap_bool_def
      mmap_get_def MAP_FAILED_def nullptr_def sys_simps script_simps calm_def failed_def)

subsection \<open>A region from a handle\<close>

lemma fd_destroy_sentinel:
  "handle this = invalid \<Longrightarrow> fd_destroy this w = Some (Inr (), this, w)"
  by (simp add: fd_destroy_def fd_close_def)

lemma fd_destroy_returns:
  assumes "fd_destroy this w = Some (res, this', w')" "handle this \<noteq> invalid"
  shows "res = Inr () \<and> closed_last (handle this) w' \<or> (\<exists>c. res = Inl (system_error c ''close''))"
proof -
  from assms obtain r where loop: "close_loop ''close'' (handle this) w = Some (r, w')"
    and res: "res = (case r of Inl e \<Rightarrow> Inl e | Inr u \<Rightarrow> Inr ())"
    by (auto simp add: fd_destroy_def fd_close_def split: option.splits sum.splits)
  from close_loop_returns [OF loop] obtain k
    where w': "w' = w\<lparr>trace := trace w @ replicate (Suc k) (Close (handle this))\<rparr>"
      and r: "r = Inr () \<and> ret (replies w (length (trace w) + k)) = 0
        \<or> r = Inl (system_error (errno (replies w (length (trace w) + k))) ''close'')
          \<and> ret (replies w (length (trace w) + k)) \<noteq> 0
          \<and> errno (replies w (length (trace w) + k)) \<noteq> EINTR"
    by blast
  from r show ?thesis
  proof
    assume "r = Inr () \<and> ret (replies w (length (trace w) + k)) = 0"
    with w' res have "res = Inr () \<and> closed_last (handle this) w'"
      by (simp add: closed_last_def del: replicate_Suc)
    then show ?thesis ..
  next
    assume "r = Inl (system_error (errno (replies w (length (trace w) + k))) ''close'')
      \<and> ret (replies w (length (trace w) + k)) \<noteq> 0
      \<and> errno (replies w (length (trace w) + k)) \<noteq> EINTR"
    with res show ?thesis by simp
  qed
qed

lemma unwind_fd_returns:
  assumes "unwind_fd e local w = Some (e', w')" "e' \<noteq> terminate"
  shows "e' = e \<and> (handle local \<noteq> invalid \<longrightarrow> closed_last (handle local) w')"
proof (cases "handle local = invalid")
  case True
  with assms show ?thesis by (simp add: unwind_fd_def fd_destroy_sentinel)
next
  case False
  from assms obtain res local' where d: "fd_destroy local w = Some (res, local', w')"
    and e': "e' = (case res of Inl x \<Rightarrow> terminate | Inr u \<Rightarrow> e)"
    by (auto simp add: unwind_fd_def split: option.splits sum.splits)
  from fd_destroy_returns [OF d False] e' assms(2) show ?thesis by auto
qed

text \<open>
  C6. When the constructor of a region from a handle returns, normally or by throwing
  the \<open>fstat\<close> or the \<open>mmap\<close> error, the caller's \<open>fd\<close> is the sentinel; if it owned a
  handle, the last system call is a \<open>close\<close> of that handle that succeeded; and a region
  that was constructed holds the address and the size the operating system returned, and
  nothing of the handle.
\<close>

theorem mmap_from_fd_consumes_handle:
  assumes run: "mmap_from_fd fd protection flags offset w = Some (res, fd', w')"
    and out: "(\<exists>region. res = Inr region)
      \<or> (\<exists>c. res = Inl (system_error c ''fstat''))
      \<or> (\<exists>c. res = Inl (system_error c ''mmap''))"
  shows "fd_get fd' = invalid \<and> \<not> fd_bool fd'
       \<and> (fd_get fd \<noteq> invalid \<longrightarrow> closed_last (fd_get fd) w')
       \<and> (\<forall>region. res = Inr region \<longrightarrow>
            region = \<lparr>address = ptr (replies w (Suc (length (trace w)))),
                      length' = st_size (replies w (length (trace w)))\<rparr>)"
proof -
  let ?local = "\<lparr>handle = handle fd\<rparr>"
  let ?r1 = "replies w (length (trace w))"
  let ?w1 = "w\<lparr>trace := trace w @ [Fstat (handle fd)]\<rparr>"
  let ?r2 = "replies w (Suc (length (trace w)))"
  let ?w2 = "?w1\<lparr>trace := trace ?w1 @ [Mmap nullptr (st_size ?r1) protection flags (handle fd) offset]\<rparr>"
  from out have nt: "res \<noteq> Inl terminate" by auto
  from out have nc: "\<not> (\<exists>c. res = Inl (system_error c ''close''))" by auto
  have moved: "fd' = fd\<lparr>handle := invalid\<rparr>"
    using run
    by (auto simp add: mmap_from_fd_def Let_def fd_move_def split: if_splits option.splits sum.splits)
  have closed: "closed_last (handle fd) w'" if owned: "handle fd \<noteq> invalid"
  proof (cases "ret ?r1 = - 1")
    case True
    with run obtain e where u: "unwind_fd (system_error (errno ?r1) ''fstat'') ?local ?w1 = Some (e, w')"
      and "res = Inl e"
      by (auto simp add: mmap_from_fd_def Let_def fd_move_def fd_int_def sys_simps split: option.splits)
    with nt have "e \<noteq> terminate" by auto
    from unwind_fd_returns [OF u this] owned show ?thesis by simp
  next
    case stat: False
    show ?thesis
    proof (cases "ptr ?r2 = MAP_FAILED")
      case True
      with stat run obtain e where u: "unwind_fd (system_error (errno ?r2) ''mmap'') ?local ?w2 = Some (e, w')"
        and "res = Inl e"
        by (auto simp add: mmap_from_fd_def Let_def fd_move_def fd_int_def sys_simps split: option.splits)
      with nt have "e \<noteq> terminate" by auto
      from unwind_fd_returns [OF u this] owned show ?thesis by simp
    next
      case False
      with stat run obtain dres local' where d: "fd_destroy ?local ?w2 = Some (dres, local', w')"
        and res: "res = (case dres of Inl e \<Rightarrow> Inl e | Inr u \<Rightarrow> Inr \<lparr>address = ptr ?r2, length' = st_size ?r1\<rparr>)"
        by (auto simp add: mmap_from_fd_def Let_def fd_move_def fd_int_def sys_simps
            split: option.splits sum.splits)
      from owned have "handle ?local \<noteq> invalid" by simp
      from fd_destroy_returns [OF d this]
      have "dres = Inr () \<and> closed_last (handle fd) w' \<or> (\<exists>c. dres = Inl (system_error c ''close''))"
        by simp
      with res nc show ?thesis by auto
    qed
  qed
  have region: "region = \<lparr>address = ptr ?r2, length' = st_size ?r1\<rparr>" if "res = Inr region" for region
    using run that
    by (auto simp add: mmap_from_fd_def Let_def fd_move_def fd_int_def sys_simps
        split: if_splits option.splits sum.splits)
  from moved closed region show ?thesis
    by (simp add: fd_get_def fd_bool_def)
qed

lemmas run_simps =
  mmap_from_fd_def unwind_fd_def fd_destroy_def fd_close_def fd_move_def fd_int_def fd_ctor_def
  sys_simps script_simps close_loop_success close_loop_failure close_loop_again
  eintr_def calm_def interrupted_def failed_def invalid_def MAP_FAILED_def EINTR_def Let_def

theorem mmap_from_fd_consumes_handle_witness:
  "mmap_from_fd (fd_ctor 3) 1 2 0 (world0 [calm, calm, interrupted, calm]) =
     Some (Inr \<lparr>address = 65536, length' = 4096\<rparr>, fd_ctor invalid,
           (world0 [calm, calm, interrupted, calm])
             \<lparr>trace := [Fstat 3, Mmap nullptr 4096 1 2 3 0, Close 3, Close 3]\<rparr>)
   \<and> closed_last 3 ((world0 [calm, calm, interrupted, calm])
             \<lparr>trace := [Fstat 3, Mmap nullptr 4096 1 2 3 0, Close 3, Close 3]\<rparr>)
   \<and> mmap_from_fd (fd_ctor 3) 1 2 0 (world0 [failed 5, calm]) =
     Some (Inl (system_error 5 ''fstat''), fd_ctor invalid,
           (world0 [failed 5, calm])\<lparr>trace := [Fstat 3, Close 3]\<rparr>)
   \<and> closed_last 3 ((world0 [failed 5, calm])\<lparr>trace := [Fstat 3, Close 3]\<rparr>)
   \<and> mmap_from_fd (fd_ctor 3) 1 2 0 (world0 [calm, failed 12, calm]) =
     Some (Inl (system_error 12 ''mmap''), fd_ctor invalid,
           (world0 [calm, failed 12, calm])\<lparr>trace := [Fstat 3, Mmap nullptr 4096 1 2 3 0, Close 3]\<rparr>)
   \<and> closed_last 3 ((world0 [calm, failed 12, calm])
             \<lparr>trace := [Fstat 3, Mmap nullptr 4096 1 2 3 0, Close 3]\<rparr>)"
proof -
  have run1: "mmap_from_fd (fd_ctor 3) 1 2 0 (world0 [calm, calm, interrupted, calm]) =
     Some (Inr \<lparr>address = 65536, length' = 4096\<rparr>, fd_ctor invalid,
           (world0 [calm, calm, interrupted, calm])
             \<lparr>trace := [Fstat 3, Mmap nullptr 4096 1 2 3 0, Close 3, Close 3]\<rparr>)"
    by (simp add: run_simps)
  have run2: "mmap_from_fd (fd_ctor 3) 1 2 0 (world0 [failed 5, calm]) =
     Some (Inl (system_error 5 ''fstat''), fd_ctor invalid,
           (world0 [failed 5, calm])\<lparr>trace := [Fstat 3, Close 3]\<rparr>)"
    by (simp add: run_simps)
  have run3: "mmap_from_fd (fd_ctor 3) 1 2 0 (world0 [calm, failed 12, calm]) =
     Some (Inl (system_error 12 ''mmap''), fd_ctor invalid,
           (world0 [calm, failed 12, calm])\<lparr>trace := [Fstat 3, Mmap nullptr 4096 1 2 3 0, Close 3]\<rparr>)"
    by (simp add: run_simps)
  have owned: "fd_get (fd_ctor 3) \<noteq> invalid"
    by (simp add: fd_get_def fd_ctor_def invalid_def)
  from mmap_from_fd_consumes_handle [OF run1] mmap_from_fd_consumes_handle [OF run2]
    mmap_from_fd_consumes_handle [OF run3] owned run1 run2 run3
  show ?thesis
    by (simp add: fd_get_def fd_ctor_def)
qed

end
